theory Spec2Isabelle
  imports Main "HOL-Library.Word"
begin

section \<open>The command-mode keyboard driver \<^verbatim>\<open>usbkbd_cmdmode.c\<close>\<close>

text \<open>
  The driver receives 8-byte boot-protocol reports in \<^verbatim>\<open>usbkbd_cmd_irq\<close>, compares the
  six key bytes with those of the previous report, and calls \<^verbatim>\<open>process_key\<close> once for
  every key that went away and once for every key that is new.  \<^verbatim>\<open>process_key\<close> keeps the
  command-mode state and decides what is sent to the virtual input device.

  Everything the C code does beyond computing values is explicit here: the fields of
  \<^verbatim>\<open>struct usbkbd_cmd\<close> that the key logic uses are a record that is passed in and returned,
  the calls to the input device and to \<^verbatim>\<open>printk\<close> are a list of effects in the order in
  which they are made, and a read past the end of the report buffer is a fault.
\<close>

subsection \<open>Key codes of the input subsystem\<close>

text \<open>
  \<^verbatim>\<open>KEY_MAX\<close>, \<^verbatim>\<open>KEY_LEFTCTRL\<close> and the other key codes are macros of
  \<^verbatim>\<open>linux/input.h\<close>, which is not part of the driver's source.  The functions below take
  them as a parameter; \<open>linux_codes\<close> holds the values of the kernel's header.
\<close>

type_synonym u8 = "8 word"

record input_codes =
  KEY_MAX :: nat
  KEY_LEFTCTRL :: nat
  KEY_RIGHTCTRL :: nat
  KEY_SPACE :: nat
  KEY_LEFTALT :: nat
  KEY_B :: nat
  KEY_Q :: nat
  KEY_T :: nat

definition linux_codes :: input_codes where
  "linux_codes = \<lparr>KEY_MAX = 767, KEY_LEFTCTRL = 29, KEY_RIGHTCTRL = 97, KEY_SPACE = 57,
     KEY_LEFTALT = 56, KEY_B = 48, KEY_Q = 16, KEY_T = 20\<rparr>"

subsection \<open>Device state and effects\<close>

text \<open>
  The fields of \<^verbatim>\<open>struct usbkbd_cmd\<close> that \<^verbatim>\<open>process_key\<close> reads and writes.
  \<^verbatim>\<open>bool key_state[KEY_MAX]\<close> is a function from the index; only indices below
  \<^verbatim>\<open>KEY_MAX\<close> belong to the array, and the range check of \<^verbatim>\<open>process_key\<close> keeps
  every write inside it.
\<close>

record usbkbd_cmd =
  command_mode :: bool
  ctrl_pressed :: bool
  space_pressed :: bool
  key_state :: "nat \<Rightarrow> bool"

datatype log_msg =
    CommandMode bool
  | ExitingCommandMode
  | UrbStatus int

text \<open>
  \<open>SendKey k p\<close> is \<^verbatim>\<open>input_report_key(virt_input, k, p)\<close> followed by
  \<^verbatim>\<open>input_sync(virt_input)\<close>; \<open>Printk\<close> is a line of the kernel log
  (\<open>CommandMode True\<close> is "Command Mode ENABLED"); \<open>SubmitUrb\<close> is the
  resubmission of the interrupt transfer.
\<close>

datatype effect =
    SendKey nat bool
  | Printk log_msg
  | SubmitUrb

fun keys_sent :: "effect list \<Rightarrow> (nat \<times> bool) list" where
  "keys_sent [] = []"
| "keys_sent (SendKey k p # es) = (k, p) # keys_sent es"
| "keys_sent (_ # es) = keys_sent es"

definition send_key :: "nat \<Rightarrow> bool \<Rightarrow> effect list" where
  "send_key keycode pressed = [SendKey keycode pressed]"

definition send_ctrl_alt_t :: "input_codes \<Rightarrow> effect list" where
  "send_ctrl_alt_t K =
     send_key (KEY_LEFTCTRL K) True @
     send_key (KEY_LEFTALT K) True @
     send_key (KEY_T K) True @
     send_key (KEY_T K) False @
     send_key (KEY_LEFTALT K) False @
     send_key (KEY_LEFTCTRL K) False"

subsection \<open>\<^verbatim>\<open>process_key\<close>\<close>

text \<open>
  The parameter \<^verbatim>\<open>keycode\<close> is an \<^verbatim>\<open>unsigned char\<close>; it is promoted to \<^verbatim>\<open>int\<close>
  in every comparison and index, which is \<open>unat\<close> here.
\<close>

definition process_key ::
  "input_codes \<Rightarrow> usbkbd_cmd \<Rightarrow> u8 \<Rightarrow> bool \<Rightarrow> usbkbd_cmd \<times> effect list" where
  "process_key K kbd keycode pressed =
     (if KEY_MAX K \<le> unat keycode then (kbd, [])
      else
        let kbd1 = kbd\<lparr>key_state := (key_state kbd)(unat keycode := pressed)\<rparr>;
            kbd2 = (if unat keycode = KEY_LEFTCTRL K \<or> unat keycode = KEY_RIGHTCTRL K
                    then kbd1\<lparr>ctrl_pressed := pressed\<rparr> else kbd1);
            kbd3 = (if unat keycode = KEY_SPACE K
                    then kbd2\<lparr>space_pressed := pressed\<rparr> else kbd2)
        in
          if ctrl_pressed kbd3 \<and> space_pressed kbd3 \<and> pressed then
            (let kbd4 = kbd3\<lparr>command_mode := \<not> command_mode kbd3\<rparr>
             in (kbd4, [Printk (CommandMode (command_mode kbd4))]))
          else if \<not> command_mode kbd3 then
            (kbd3, send_key (unat keycode) pressed)
          else if \<not> pressed then
            (kbd3, [])
          else if unat keycode = KEY_B K then
            (kbd3, send_ctrl_alt_t K @ send_key (KEY_B K) False)
          else if unat keycode = KEY_Q K then
            (kbd3\<lparr>command_mode := False\<rparr>,
             Printk ExitingCommandMode # send_key (KEY_Q K) False)
          else
            (kbd3, send_key (unat keycode) False))"

subsection \<open>\<^verbatim>\<open>usbkbd_cmd_irq\<close>\<close>

text \<open>
  The inner loop of both passes: a linear search for a key in an array, leaving at the
  first hit.
\<close>

fun key_found :: "u8 \<Rightarrow> u8 list \<Rightarrow> bool" where
  "key_found x [] = False"
| "key_found x (k # ks) = (if x = k then True else key_found x ks)"

text \<open>
  The first pass walks \<^verbatim>\<open>old_keys\<close> and releases every non-zero key that is not in
  \<^verbatim>\<open>keys\<close>; the second walks \<^verbatim>\<open>keys\<close> and presses every non-zero key that is not in
  \<^verbatim>\<open>old_keys\<close>.  The first argument list is the rest of the array still to be visited.
\<close>

fun release_loop ::
  "input_codes \<Rightarrow> usbkbd_cmd \<Rightarrow> u8 list \<Rightarrow> u8 list \<Rightarrow> usbkbd_cmd \<times> effect list" where
  "release_loop K kbd [] keys = (kbd, [])"
| "release_loop K kbd (k # rest) keys =
     (if k = 0 then release_loop K kbd rest keys
      else if key_found k keys then release_loop K kbd rest keys
      else
        let (kbd1, out1) = process_key K kbd k False;
            (kbd2, out2) = release_loop K kbd1 rest keys
        in (kbd2, out1 @ out2))"

fun press_loop ::
  "input_codes \<Rightarrow> usbkbd_cmd \<Rightarrow> u8 list \<Rightarrow> u8 list \<Rightarrow> usbkbd_cmd \<times> effect list" where
  "press_loop K kbd [] old = (kbd, [])"
| "press_loop K kbd (k # rest) old =
     (if k = 0 then press_loop K kbd rest old
      else if key_found k old then press_loop K kbd rest old
      else
        let (kbd1, out1) = process_key K kbd k True;
            (kbd2, out2) = press_loop K kbd1 rest old
        in (kbd2, out1 @ out2))"

text \<open>
  What the callback works on: the device structure \<^verbatim>\<open>urb->context\<close> and the
  function-static array
  \<^verbatim>\<open>old_keys\<close>.
\<close>

record driver =
  urb_context :: usbkbd_cmd
  old_keys :: "u8 list"

text \<open>
  The C code copies six bytes from offset 2 of the buffer without looking at the
  buffer's size (\<^verbatim>\<open>data_size\<close>, the endpoint's \<^verbatim>\<open>wMaxPacketSize\<close>).  The buffer is the
  list \<open>data\<close>; copying from a buffer of fewer than 8 bytes reads past its end, which is
  the fault \<open>OutOfBoundsRead\<close>.
\<close>

datatype fault = OutOfBoundsRead

definition usbkbd_cmd_irq ::
  "input_codes \<Rightarrow> int \<Rightarrow> u8 list \<Rightarrow> driver \<Rightarrow> fault + driver \<times> effect list" where
  "usbkbd_cmd_irq K status data s =
     (if status \<noteq> 0 then Inr (s, [Printk (UrbStatus status)])
      else if length data < 8 then Inl OutOfBoundsRead
      else
        let keys = take 6 (drop 2 data);
            (kbd1, out1) = release_loop K (urb_context s) (old_keys s) keys;
            (kbd2, out2) = press_loop K kbd1 keys (old_keys s)
        in Inr (\<lparr>urb_context = kbd2, old_keys = keys\<rparr>, out1 @ out2 @ [SubmitUrb]))"

text \<open>
  The state after \<^verbatim>\<open>usbkbd_cmd_probe\<close>: the structure comes from \<^verbatim>\<open>kzalloc\<close>, and
  \<^verbatim>\<open>old_keys\<close> is initialised to zeros.
\<close>

definition kbd_init :: usbkbd_cmd where
  "kbd_init = \<lparr>command_mode = False, ctrl_pressed = False, space_pressed = False,
     key_state = (\<lambda>_. False)\<rparr>"

definition driver_init :: driver where
  "driver_init = \<lparr>urb_context = kbd_init, old_keys = replicate 6 0\<rparr>"

text \<open>
  A run of completed transfers, each with status 0: the callback is called once for each
  buffer, in order.
\<close>

fun deliver_reports ::
  "input_codes \<Rightarrow> driver \<Rightarrow> u8 list list \<Rightarrow> fault + driver \<times> effect list" where
  "deliver_reports K s [] = Inr (s, [])"
| "deliver_reports K s (d # ds) =
     (case usbkbd_cmd_irq K 0 d s of
        Inl f \<Rightarrow> Inl f
      | Inr (s1, out1) \<Rightarrow>
          (case deliver_reports K s1 ds of
             Inl f \<Rightarrow> Inl f
           | Inr (s2, out2) \<Rightarrow> Inr (s2, out1 @ out2)))"

text \<open>A report buffer with the given keys in its six slots (modifier and reserved byte 0).\<close>

definition report :: "u8 list \<Rightarrow> u8 list" where
  "report ks = [0, 0] @ take 6 (ks @ replicate 6 0)"

subsection \<open>The transitions of one report\<close>

text \<open>
  The calls of \<^verbatim>\<open>process_key\<close> that the two passes make, as a list of
  (keycode, pressed) in the order of the calls, and the effect of making them.
\<close>

fun release_calls :: "u8 list \<Rightarrow> u8 list \<Rightarrow> (u8 \<times> bool) list" where
  "release_calls [] keys = []"
| "release_calls (k # rest) keys =
     (if k = 0 then release_calls rest keys
      else if key_found k keys then release_calls rest keys
      else (k, False) # release_calls rest keys)"

fun press_calls :: "u8 list \<Rightarrow> u8 list \<Rightarrow> (u8 \<times> bool) list" where
  "press_calls [] old = []"
| "press_calls (k # rest) old =
     (if k = 0 then press_calls rest old
      else if key_found k old then press_calls rest old
      else (k, True) # press_calls rest old)"

definition key_diff :: "u8 list \<Rightarrow> u8 list \<Rightarrow> (u8 \<times> bool) list" where
  "key_diff old keys = release_calls old keys @ press_calls keys old"

fun process_all ::
  "input_codes \<Rightarrow> usbkbd_cmd \<Rightarrow> (u8 \<times> bool) list \<Rightarrow> usbkbd_cmd \<times> effect list" where
  "process_all K kbd [] = (kbd, [])"
| "process_all K kbd ((k, p) # ts) =
     (let (kbd1, out1) = process_key K kbd k p;
          (kbd2, out2) = process_all K kbd1 ts
      in (kbd2, out1 @ out2))"

subsection \<open>Observations of a run\<close>

text \<open>
  What a run sent to the virtual input device, the mode it ended in, and the driver state
  that a freshly probed device reaches after a list of reports.
\<close>

definition sent_to_injector :: "fault + driver \<times> effect list \<Rightarrow> (nat \<times> bool) list" where
  "sent_to_injector r = (case r of Inl f \<Rightarrow> [] | Inr (s, out) \<Rightarrow> keys_sent out)"

definition mode_after :: "fault + driver \<times> effect list \<Rightarrow> bool option" where
  "mode_after r =
     (case r of Inl f \<Rightarrow> None | Inr (s, out) \<Rightarrow> Some (command_mode (urb_context s)))"

definition driver_after :: "input_codes \<Rightarrow> u8 list list \<Rightarrow> driver" where
  "driver_after K ds =
     (case deliver_reports K driver_init ds of Inl f \<Rightarrow> driver_init | Inr (s, out) \<Rightarrow> s)"

section \<open>Properties\<close>

subsection \<open>The two passes make the calls of \<open>key_diff\<close>\<close>

lemma key_found_iff: "key_found x ks \<longleftrightarrow> x \<in> set ks"
  by (induction ks) auto

lemma keys_sent_append: "keys_sent (xs @ ys) = keys_sent xs @ keys_sent ys"
  by (induction xs rule: keys_sent.induct) simp_all

lemma release_loop_calls:
  "release_loop K kbd old keys = process_all K kbd (release_calls old keys)"
  by (induction old arbitrary: kbd) (auto split: prod.splits)

lemma press_loop_calls:
  "press_loop K kbd keys old = process_all K kbd (press_calls keys old)"
  by (induction keys arbitrary: kbd) (auto split: prod.splits)

lemma process_all_append:
  "process_all K kbd (ts @ us) =
     (let (kbd1, out1) = process_all K kbd ts;
          (kbd2, out2) = process_all K kbd1 us
      in (kbd2, out1 @ out2))"
  by (induction ts arbitrary: kbd) (auto split: prod.splits)

lemma irq_processes_key_diff:
  assumes "8 \<le> length data"
  shows "usbkbd_cmd_irq K 0 data s =
     (let keys = take 6 (drop 2 data);
          (kbd', out) = process_all K (urb_context s) (key_diff (old_keys s) keys)
      in Inr (\<lparr>urb_context = kbd', old_keys = keys\<rparr>, out @ [SubmitUrb]))"
  using assms
  by (simp add: usbkbd_cmd_irq_def key_diff_def release_loop_calls press_loop_calls
      process_all_append Let_def split: prod.splits)

lemma irq_single_transition:
  assumes "8 \<le> length data"
      and "key_diff (old_keys s) (take 6 (drop 2 data)) = [(a, p)]"
  shows "usbkbd_cmd_irq K 0 data s =
           Inr (\<lparr>urb_context = fst (process_key K (urb_context s) a p),
                 old_keys = take 6 (drop 2 data)\<rparr>,
                snd (process_key K (urb_context s) a p) @ [SubmitUrb])"
  using assms by (simp add: irq_processes_key_diff Let_def split: prod.splits)

lemma release_calls_eq:
  "release_calls old keys = map (\<lambda>k. (k, False)) (filter (\<lambda>k. k \<noteq> 0 \<and> k \<notin> set keys) old)"
  by (induction old) (auto simp: key_found_iff)

lemma press_calls_eq:
  "press_calls keys old = map (\<lambda>k. (k, True)) (filter (\<lambda>k. k \<noteq> 0 \<and> k \<notin> set old) keys)"
  by (induction keys) (auto simp: key_found_iff)

subsection \<open>\<^verbatim>\<open>process_key\<close>, field by field\<close>

lemma process_key_dropped:
  "KEY_MAX K \<le> unat keycode \<Longrightarrow> process_key K kbd keycode pressed = (kbd, [])"
  by (simp add: process_key_def)

lemma process_key_ctrl:
  "unat keycode < KEY_MAX K \<Longrightarrow>
   ctrl_pressed (fst (process_key K kbd keycode pressed)) =
     (if unat keycode = KEY_LEFTCTRL K \<or> unat keycode = KEY_RIGHTCTRL K
      then pressed else ctrl_pressed kbd)"
  by (simp add: process_key_def Let_def)

lemma process_key_space:
  "unat keycode < KEY_MAX K \<Longrightarrow>
   space_pressed (fst (process_key K kbd keycode pressed)) =
     (if unat keycode = KEY_SPACE K then pressed else space_pressed kbd)"
  by (simp add: process_key_def Let_def)

lemma process_key_key_state:
  "unat keycode < KEY_MAX K \<Longrightarrow>
   key_state (fst (process_key K kbd keycode pressed)) =
     (key_state kbd)(unat keycode := pressed)"
  by (simp add: process_key_def Let_def)

lemma process_key_mode:
  "unat keycode < KEY_MAX K \<Longrightarrow>
   command_mode (fst (process_key K kbd keycode pressed)) =
     (if ctrl_pressed (fst (process_key K kbd keycode pressed)) \<and>
         space_pressed (fst (process_key K kbd keycode pressed)) \<and> pressed
      then \<not> command_mode kbd
      else if command_mode kbd \<and> pressed \<and> unat keycode \<noteq> KEY_B K \<and> unat keycode = KEY_Q K
      then False
      else command_mode kbd)"
  by (simp add: process_key_def Let_def)

lemma process_key_out:
  "unat keycode < KEY_MAX K \<Longrightarrow>
   snd (process_key K kbd keycode pressed) =
     (if ctrl_pressed (fst (process_key K kbd keycode pressed)) \<and>
         space_pressed (fst (process_key K kbd keycode pressed)) \<and> pressed
      then [Printk (CommandMode (\<not> command_mode kbd))]
      else if \<not> command_mode kbd then [SendKey (unat keycode) pressed]
      else if \<not> pressed then []
      else if unat keycode = KEY_B K then
        [SendKey (KEY_LEFTCTRL K) True, SendKey (KEY_LEFTALT K) True, SendKey (KEY_T K) True,
         SendKey (KEY_T K) False, SendKey (KEY_LEFTALT K) False, SendKey (KEY_LEFTCTRL K) False,
         SendKey (KEY_B K) False]
      else if unat keycode = KEY_Q K then [Printk ExitingCommandMode, SendKey (KEY_Q K) False]
      else [SendKey (unat keycode) False])"
  by (simp add: process_key_def Let_def send_key_def send_ctrl_alt_t_def)

text \<open>A release never changes the mode, whatever is held.\<close>

lemma release_keeps_mode:
  "command_mode (fst (process_key K kbd keycode False)) = command_mode kbd"
proof (cases "unat keycode < KEY_MAX K")
  case True
  then show ?thesis by (simp add: process_key_mode)
next
  case False
  then show ?thesis by (simp add: process_key_dropped)
qed

text \<open>
  With the key codes of the kernel's header the range check of \<^verbatim>\<open>process_key\<close> cannot
  fire: the parameter is an \<^verbatim>\<open>unsigned char\<close>, and \<^verbatim>\<open>KEY_MAX\<close> is \<^verbatim>\<open>0x2ff\<close>.
\<close>

lemma linux_range_check_never_fires: "unat (keycode :: u8) < KEY_MAX linux_codes"
proof -
  have "unat keycode < 2 ^ 8" using unsigned_less [of keycode] by simp
  then show ?thesis by (simp add: linux_codes_def)
qed

lemma normal_mode_forwards_eq:
  assumes "unat keycode < KEY_MAX K" "\<not> command_mode kbd"
      and "\<not> (ctrl_pressed (fst (process_key K kbd keycode pressed)) \<and>
              space_pressed (fst (process_key K kbd keycode pressed)) \<and> pressed)"
  shows "snd (process_key K kbd keycode pressed) = [SendKey (unat keycode) pressed]"
    and "\<not> command_mode (fst (process_key K kbd keycode pressed))"
  using assms process_key_out [OF assms(1), of kbd pressed]
    process_key_mode [OF assms(1), of kbd pressed]
  by simp_all


text \<open>
  The open-terminal command: a press of \<^verbatim>\<open>KEY_B\<close> in command mode that the chord check
  lets through sends the six events of \<^verbatim>\<open>send_ctrl_alt_t\<close> and then the release of
  \<^verbatim>\<open>KEY_B\<close>, and the mode stays.
\<close>

lemma open_terminal_macro:
  assumes "unat keycode < KEY_MAX K" "unat keycode = KEY_B K" "command_mode kbd"
      and "\<not> (ctrl_pressed (fst (process_key K kbd keycode True)) \<and>
              space_pressed (fst (process_key K kbd keycode True)))"
  shows "keys_sent (snd (process_key K kbd keycode True)) =
           [(KEY_LEFTCTRL K, True), (KEY_LEFTALT K, True), (KEY_T K, True),
            (KEY_T K, False), (KEY_LEFTALT K, False), (KEY_LEFTCTRL K, False),
            (KEY_B K, False)]"
    and "command_mode (fst (process_key K kbd keycode True))"
  using assms process_key_out [OF assms(1), of kbd True]
    process_key_mode [OF assms(1), of kbd True]
  by simp_all

section \<open>The claims\<close>

subsection \<open>C1: no stuck key\<close>

text \<open>
  C1 says that every keycode forwarded with pressed=true is later followed by a release
  of the same keycode.  The code forwards the press of Ctrl in normal mode, enters command
  mode on the press of Space, and swallows the release of Ctrl there: after the reports
  Ctrl, Ctrl+Space, nothing held, the device has been sent the press of \<^verbatim>\<open>KEY_LEFTCTRL\<close>
  (29) and nothing else, and no key is held any more.
\<close>

theorem ctrl_stuck_after_toggle:
  "sent_to_injector (deliver_reports linux_codes driver_init
       [report [29], report [29, 57], report []]) = [(29, True)]
   \<and> old_keys (driver_after linux_codes [report [29], report [29, 57], report []])
       = [0, 0, 0, 0, 0, 0]"
  by code_simp

subsection \<open>C2: the transitions of a report\<close>

text \<open>
  C2: for every previous and current key set, the differ emits a release for each
  non-zero keycode that is in the previous set and not in the current one, a press for each
  non-zero keycode that is in the current set and not in the previous one, never a
  transition for keycode 0, and all releases before all presses.  The first pass of
  \<^verbatim>\<open>usbkbd_cmd_irq\<close> (\<open>release_loop\<close>) calls \<^verbatim>\<open>process_key\<close> with exactly these
  releases, in the order of the previous set, the second pass (\<open>press_loop\<close>) with exactly
  these presses, in the order of the current set, and the callback as a whole makes the
  calls of the first pass and then those of the second; \<open>key_diff\<close> is that list of calls.
\<close>

theorem irq_emits_key_transitions:
  "release_loop K kbd old keys =
     process_all K kbd (map (\<lambda>k. (k, False)) (filter (\<lambda>k. k \<noteq> 0 \<and> k \<notin> set keys) old))
   \<and> press_loop K kbd keys old =
     process_all K kbd (map (\<lambda>k. (k, True)) (filter (\<lambda>k. k \<noteq> 0 \<and> k \<notin> set old) keys))
   \<and> (8 \<le> length data \<longrightarrow>
        usbkbd_cmd_irq K 0 data s =
          Inr (\<lparr>urb_context =
                  fst (process_all K (urb_context s)
                         (key_diff (old_keys s) (take 6 (drop 2 data)))),
                old_keys = take 6 (drop 2 data)\<rparr>,
               snd (process_all K (urb_context s)
                      (key_diff (old_keys s) (take 6 (drop 2 data)))) @ [SubmitUrb]))
   \<and> key_diff old keys =
       map (\<lambda>k. (k, False)) (filter (\<lambda>k. k \<noteq> 0 \<and> k \<notin> set keys) old) @
       map (\<lambda>k. (k, True)) (filter (\<lambda>k. k \<noteq> 0 \<and> k \<notin> set old) keys)
   \<and> (\<forall>k. (k, False) \<in> set (key_diff old keys) \<longleftrightarrow> k \<noteq> 0 \<and> k \<in> set old \<and> k \<notin> set keys)
   \<and> (\<forall>k. (k, True) \<in> set (key_diff old keys) \<longleftrightarrow> k \<noteq> 0 \<and> k \<in> set keys \<and> k \<notin> set old)
   \<and> (\<forall>p. (0, p) \<notin> set (key_diff old keys))
   \<and> sorted_wrt (\<lambda>s t. snd s \<longrightarrow> snd t) (key_diff old keys)"
proof (intro conjI impI)
  show "release_loop K kbd old keys =
     process_all K kbd (map (\<lambda>k. (k, False)) (filter (\<lambda>k. k \<noteq> 0 \<and> k \<notin> set keys) old))"
    by (simp only: release_loop_calls release_calls_eq)
  show "press_loop K kbd keys old =
     process_all K kbd (map (\<lambda>k. (k, True)) (filter (\<lambda>k. k \<noteq> 0 \<and> k \<notin> set old) keys))"
    by (simp only: press_loop_calls press_calls_eq)
  show d: "key_diff old keys =
       map (\<lambda>k. (k, False)) (filter (\<lambda>k. k \<noteq> 0 \<and> k \<notin> set keys) old) @
       map (\<lambda>k. (k, True)) (filter (\<lambda>k. k \<noteq> 0 \<and> k \<notin> set old) keys)"
    by (simp only: key_diff_def release_calls_eq press_calls_eq)
  show "\<forall>k. (k, False) \<in> set (key_diff old keys) \<longleftrightarrow> k \<noteq> 0 \<and> k \<in> set old \<and> k \<notin> set keys"
    unfolding d by auto
  show "\<forall>k. (k, True) \<in> set (key_diff old keys) \<longleftrightarrow> k \<noteq> 0 \<and> k \<in> set keys \<and> k \<notin> set old"
    unfolding d by auto
  show "\<forall>p. (0, p) \<notin> set (key_diff old keys)"
    unfolding d by auto
  show "sorted_wrt (\<lambda>s t. snd s \<longrightarrow> snd t) (key_diff old keys)"
    unfolding d by (simp add: sorted_wrt_append sorted_wrt_map)
next
  assume "8 \<le> length data"
  then show "usbkbd_cmd_irq K 0 data s =
          Inr (\<lparr>urb_context =
                  fst (process_all K (urb_context s)
                         (key_diff (old_keys s) (take 6 (drop 2 data)))),
                old_keys = take 6 (drop 2 data)\<rparr>,
               snd (process_all K (urb_context s)
                      (key_diff (old_keys s) (take 6 (drop 2 data)))) @ [SubmitUrb])"
    by (simp add: irq_processes_key_diff Let_def split: prod.splits)
qed

theorem irq_emits_key_transitions_witness:
  "8 \<le> length (report [5, 6])
   \<and> key_diff [4, 5, 0, 0, 0, 0] [5, 6, 0, 0, 0, 0] = [(4, False), (6, True)]
   \<and> release_loop linux_codes kbd_init [4, 5, 0, 0, 0, 0] [5, 6, 0, 0, 0, 0]
       = process_all linux_codes kbd_init [(4, False)]
   \<and> press_loop linux_codes kbd_init [5, 6, 0, 0, 0, 0] [4, 5, 0, 0, 0, 0]
       = process_all linux_codes kbd_init [(6, True)]
   \<and> usbkbd_cmd_irq linux_codes 0 (report [5, 6])
        \<lparr>urb_context = kbd_init, old_keys = [4, 5, 0, 0, 0, 0]\<rparr>
       = Inr (\<lparr>urb_context = fst (process_all linux_codes kbd_init [(4, False), (6, True)]),
               old_keys = [5, 6, 0, 0, 0, 0]\<rparr>,
              snd (process_all linux_codes kbd_init [(4, False), (6, True)]) @ [SubmitUrb])
   \<and> sent_to_injector (usbkbd_cmd_irq linux_codes 0 (report [5, 6])
        \<lparr>urb_context = kbd_init, old_keys = [4, 5, 0, 0, 0, 0]\<rparr>) = [(4, False), (6, True)]
   \<and> (4, False) \<in> set (key_diff [4, 5, 0, 0, 0, 0] [5, 6, 0, 0, 0, 0])
   \<and> (6, True) \<in> set (key_diff [4, 5, 0, 0, 0, 0] [5, 6, 0, 0, 0, 0])
   \<and> (5, True) \<notin> set (key_diff [4, 5, 0, 0, 0, 0] [5, 6, 0, 0, 0, 0])
   \<and> (0, False) \<notin> set (key_diff [4, 5, 0, 0, 0, 0] [5, 6, 0, 0, 0, 0])"
proof -
  have l: "8 \<le> length (report [5, 6])"
    by (simp add: report_def)
  have k: "take 6 (drop 2 (report [5, 6])) = [5, 6, 0, 0, 0, 0]"
    by code_simp
  have p: "keys_sent (snd (process_all linux_codes kbd_init [(4, False), (6, True)]))
      = [(4, False), (6, True)]"
    by code_simp
  note th = irq_emits_key_transitions [of linux_codes kbd_init "[4, 5, 0, 0, 0, 0]" "[5, 6, 0, 0, 0, 0]"
      "report [5, 6]" "\<lparr>urb_context = kbd_init, old_keys = [4, 5, 0, 0, 0, 0]\<rparr>"]
  have d: "key_diff [4, 5, 0, 0, 0, 0] [5, 6, 0, 0, 0, 0] = [(4, False), (6, True)]"
    using th by simp
  have i: "usbkbd_cmd_irq linux_codes 0 (report [5, 6])
        \<lparr>urb_context = kbd_init, old_keys = [4, 5, 0, 0, 0, 0]\<rparr>
       = Inr (\<lparr>urb_context = fst (process_all linux_codes kbd_init [(4, False), (6, True)]),
               old_keys = [5, 6, 0, 0, 0, 0]\<rparr>,
              snd (process_all linux_codes kbd_init [(4, False), (6, True)]) @ [SubmitUrb])"
    using th l by (simp only: k d simp_thms driver.simps)
  have s: "sent_to_injector (usbkbd_cmd_irq linux_codes 0 (report [5, 6])
        \<lparr>urb_context = kbd_init, old_keys = [4, 5, 0, 0, 0, 0]\<rparr>) = [(4, False), (6, True)]"
    unfolding i sent_to_injector_def using p by (simp add: keys_sent_append)
  have r: "release_loop linux_codes kbd_init [4, 5, 0, 0, 0, 0] [5, 6, 0, 0, 0, 0]
       = process_all linux_codes kbd_init [(4, False)]"
    "press_loop linux_codes kbd_init [5, 6, 0, 0, 0, 0] [4, 5, 0, 0, 0, 0]
       = process_all linux_codes kbd_init [(6, True)]"
    using th by simp_all
  show ?thesis
    using l d r i s by simp
qed

subsection \<open>C3: when the chord toggles\<close>

text \<open>
  C3: for a transition with a keycode in the supported range, \<^verbatim>\<open>process_key\<close> toggles the
  mode and consumes the transition (nothing is sent for it) exactly when, after this
  transition's update of the two latches, Ctrl and Space are both held and the transition
  is a press.  The first two conjuncts say what the latches are after the update; the last
  says that the toggle's log line is printed in exactly the same case.
\<close>

theorem chord_toggles_and_consumes:
  assumes "unat keycode < KEY_MAX K"
      and "process_key K kbd keycode pressed = (kbd', out)"
  shows "ctrl_pressed kbd' =
           (if unat keycode = KEY_LEFTCTRL K \<or> unat keycode = KEY_RIGHTCTRL K
            then pressed else ctrl_pressed kbd)
       \<and> space_pressed kbd' =
           (if unat keycode = KEY_SPACE K then pressed else space_pressed kbd)
       \<and> ((command_mode kbd' = (\<not> command_mode kbd) \<and> keys_sent out = [])
            \<longleftrightarrow> (ctrl_pressed kbd' \<and> space_pressed kbd' \<and> pressed))
       \<and> (out = [Printk (CommandMode (\<not> command_mode kbd))]
            \<longleftrightarrow> (ctrl_pressed kbd' \<and> space_pressed kbd' \<and> pressed))"
proof -
  have f: "kbd' = fst (process_key K kbd keycode pressed)"
    and s: "out = snd (process_key K kbd keycode pressed)"
    using assms(2) by simp_all
  show ?thesis
    unfolding s process_key_out [OF assms(1)] f process_key_mode [OF assms(1)]
      process_key_ctrl [OF assms(1)] process_key_space [OF assms(1)]
    by (simp add: Let_def)
qed

theorem chord_toggles_and_consumes_witness:
  "unat (57 :: u8) < KEY_MAX linux_codes
   \<and> command_mode (fst (process_key linux_codes (kbd_init\<lparr>ctrl_pressed := True\<rparr>) 57 True))
   \<and> keys_sent (snd (process_key linux_codes (kbd_init\<lparr>ctrl_pressed := True\<rparr>) 57 True)) = []
   \<and> ctrl_pressed (fst (process_key linux_codes (kbd_init\<lparr>ctrl_pressed := True\<rparr>) 57 True))
   \<and> space_pressed (fst (process_key linux_codes (kbd_init\<lparr>ctrl_pressed := True\<rparr>) 57 True))"
  using chord_toggles_and_consumes [of 57 linux_codes "kbd_init\<lparr>ctrl_pressed := True\<rparr>" True
      "fst (process_key linux_codes (kbd_init\<lparr>ctrl_pressed := True\<rparr>) 57 True)"
      "snd (process_key linux_codes (kbd_init\<lparr>ctrl_pressed := True\<rparr>) 57 True)"]
  by (simp add: linux_codes_def kbd_init_def)

subsection \<open>C4: edge-triggering of the chord\<close>

text \<open>
  C4 says that only the press that completes the chord toggles the mode, and that a press
  of a third key while Ctrl and Space stay held does not.  The check of \<^verbatim>\<open>process_key\<close>
  looks at the two latches and at \<^verbatim>\<open>pressed\<close>, not at which key is pressed: after
  Ctrl and Ctrl+Space the driver is in command mode, and the report Ctrl+Space+4, whose
  only transition is the press of key 4, puts it back into normal mode.
  (A release never toggles: \<open>release_keeps_mode\<close>.)
\<close>

theorem third_key_toggles_mode:
  "mode_after (deliver_reports linux_codes driver_init [report [29], report [29, 57]]) = Some True
   \<and> key_diff (old_keys (driver_after linux_codes [report [29], report [29, 57]]))
        (take 6 (drop 2 (report [29, 57, 4]))) = [(4, True)]
   \<and> mode_after (deliver_reports linux_codes
        (driver_after linux_codes [report [29], report [29, 57]]) [report [29, 57, 4]])
       = Some False"
  by code_simp

subsection \<open>C5: short report buffers\<close>

text \<open>
  C5 says that a buffer shorter than 8 bytes is reported as a decode error, dropped and
  logged with no transition and no state update.  The code has no length check: with a
  buffer of four bytes the copy of the six key bytes reads past its end.
\<close>

theorem short_buffer_read_past_end:
  "usbkbd_cmd_irq linux_codes 0 [0, 0, 4, 0] driver_init = Inl OutOfBoundsRead"
  by (simp add: usbkbd_cmd_irq_def)

text \<open>
  C5 as amended: the callback makes no length check of its own.  A report is dropped and
  logged, with no transition, no state update and no resubmission, when the transfer
  status is not 0.  With status 0 and a buffer of at least 8 bytes decoding always
  succeeds: bytes 2 to 7 are the key set, its transitions against the previous key set
  are processed, and it becomes the previous key set.  With status 0 and a shorter buffer
  the copy reads past the end of the buffer.
\<close>

theorem irq_drops_only_failed_transfers:
  "(status \<noteq> 0 \<longrightarrow> usbkbd_cmd_irq K status data s = Inr (s, [Printk (UrbStatus status)]))
   \<and> (status = 0 \<and> 8 \<le> length data \<longrightarrow>
        usbkbd_cmd_irq K status data s =
          Inr (\<lparr>urb_context =
                  fst (process_all K (urb_context s)
                         (key_diff (old_keys s) (take 6 (drop 2 data)))),
                old_keys = take 6 (drop 2 data)\<rparr>,
               snd (process_all K (urb_context s)
                      (key_diff (old_keys s) (take 6 (drop 2 data)))) @ [SubmitUrb]))
   \<and> (status = 0 \<and> length data < 8 \<longrightarrow> usbkbd_cmd_irq K status data s = Inl OutOfBoundsRead)"
proof (intro conjI impI)
  assume "status \<noteq> 0"
  then show "usbkbd_cmd_irq K status data s = Inr (s, [Printk (UrbStatus status)])"
    by (simp add: usbkbd_cmd_irq_def)
next
  assume "status = 0 \<and> 8 \<le> length data"
  then show "usbkbd_cmd_irq K status data s =
          Inr (\<lparr>urb_context =
                  fst (process_all K (urb_context s)
                         (key_diff (old_keys s) (take 6 (drop 2 data)))),
                old_keys = take 6 (drop 2 data)\<rparr>,
               snd (process_all K (urb_context s)
                      (key_diff (old_keys s) (take 6 (drop 2 data)))) @ [SubmitUrb])"
    by (simp add: irq_processes_key_diff Let_def split: prod.splits)
next
  assume "status = 0 \<and> length data < 8"
  then show "usbkbd_cmd_irq K status data s = Inl OutOfBoundsRead"
    by (simp add: usbkbd_cmd_irq_def)
qed

theorem irq_drops_only_failed_transfers_witness:
  "(-71 :: int) \<noteq> 0
   \<and> usbkbd_cmd_irq linux_codes (-71) (report [4]) driver_init
       = Inr (driver_init, [Printk (UrbStatus (-71))])
   \<and> 8 \<le> length (report [4])
   \<and> sent_to_injector (usbkbd_cmd_irq linux_codes 0 (report [4]) driver_init) = [(4, True)]
   \<and> length [0, 0, 4, 0 :: u8] < 8
   \<and> usbkbd_cmd_irq linux_codes 0 [0, 0, 4, 0] (driver_after linux_codes [report [4]])
       = Inl OutOfBoundsRead"
proof -
  have l: "8 \<le> length (report [4])"
    by (simp add: report_def)
  have k: "take 6 (drop 2 (report [4])) = [4, 0, 0, 0, 0, 0]"
    "key_diff (old_keys driver_init) [4, 0, 0, 0, 0, 0] = [(4, True)]"
    by code_simp+
  have u: "urb_context driver_init = kbd_init"
    by (simp add: driver_init_def)
  have p: "snd (process_key linux_codes kbd_init 4 True) = [SendKey 4 True]"
    by code_simp
  show ?thesis
    using irq_drops_only_failed_transfers [of "-71" linux_codes "report [4]" driver_init]
      irq_drops_only_failed_transfers [of 0 linux_codes "report [4]" driver_init]
      irq_drops_only_failed_transfers [of 0 linux_codes "[0, 0, 4, 0]"
        "driver_after linux_codes [report [4]]"] l
    by (simp add: k u p sent_to_injector_def split: prod.splits)
qed

subsection \<open>C6: the open-terminal key\<close>

text \<open>
  C6 says that in command mode a press of B sends the Ctrl+Alt+T sequence and the release
  of B, and that the mode stays.  The chord check comes first and does not look at the
  key: with Ctrl and Space still held after entering command mode, the press of
  \<^verbatim>\<open>KEY_B\<close> (48) toggles the mode back, and nothing is sent for it.  (When Ctrl and Space
  are not both held the sequence is sent: \<open>open_terminal_macro\<close>.)
\<close>

theorem open_terminal_preempted_by_chord:
  "mode_after (deliver_reports linux_codes driver_init [report [29], report [29, 57]]) = Some True
   \<and> key_diff (old_keys (driver_after linux_codes [report [29], report [29, 57]]))
        (take 6 (drop 2 (report [29, 57, 48]))) = [(48, True)]
   \<and> sent_to_injector (deliver_reports linux_codes
        (driver_after linux_codes [report [29], report [29, 57]]) [report [29, 57, 48]]) = []
   \<and> mode_after (deliver_reports linux_codes
        (driver_after linux_codes [report [29], report [29, 57]]) [report [29, 57, 48]])
       = Some False"
  by code_simp

subsection \<open>C7: pass-through in normal mode\<close>

text \<open>
  C7 says that for every valid keycode A, starting in normal mode, reports that decode to
  A pressed and then A released send exactly (A, true), (A, false) with no mode change.
  With Ctrl held in normal mode and A = Space the press completes the chord: nothing is
  sent for either report, and the driver ends in command mode.
\<close>

theorem space_press_with_ctrl_held_not_forwarded:
  "mode_after (deliver_reports linux_codes driver_init [report [29]]) = Some False
   \<and> key_diff (old_keys (driver_after linux_codes [report [29]]))
        (take 6 (drop 2 (report [29, 57]))) = [(57, True)]
   \<and> key_diff (take 6 (drop 2 (report [29, 57]))) (take 6 (drop 2 (report [29])))
       = [(57, False)]
   \<and> sent_to_injector (deliver_reports linux_codes (driver_after linux_codes [report [29]])
        [report [29, 57], report [29]]) = []
   \<and> mode_after (deliver_reports linux_codes (driver_after linux_codes [report [29]])
        [report [29, 57], report [29]]) = Some True"
  by code_simp

text \<open>
  C7 as amended: in normal mode every transition in the supported range that is not
  consumed by the chord check is forwarded unchanged, and the mode stays normal; and for
  every keycode A in the supported range, starting in normal mode in a state where the
  press of A does not leave both Ctrl and Space held, two reports that decode to A pressed
  and then A released send exactly (A, true), (A, false), with no mode change.
\<close>

theorem normal_mode_pass_through:
  "(\<not> command_mode kbd \<and> unat keycode < KEY_MAX K
      \<and> process_key K kbd keycode pressed = (kbd', out)
      \<and> \<not> (ctrl_pressed kbd' \<and> space_pressed kbd' \<and> pressed)
     \<longrightarrow> out = [SendKey (unat keycode) pressed] \<and> \<not> command_mode kbd')
   \<and> (\<not> command_mode (urb_context s) \<and> unat a < KEY_MAX K
      \<and> 8 \<le> length d1 \<and> 8 \<le> length d2
      \<and> key_diff (old_keys s) (take 6 (drop 2 d1)) = [(a, True)]
      \<and> key_diff (take 6 (drop 2 d1)) (take 6 (drop 2 d2)) = [(a, False)]
      \<and> \<not> ((unat a = KEY_LEFTCTRL K \<or> unat a = KEY_RIGHTCTRL K \<or> ctrl_pressed (urb_context s))
            \<and> (unat a = KEY_SPACE K \<or> space_pressed (urb_context s)))
     \<longrightarrow> sent_to_injector (deliver_reports K s [d1, d2]) = [(unat a, True), (unat a, False)]
       \<and> mode_after (deliver_reports K s [d1, d2]) = Some False)"
proof (intro conjI impI)
  assume h: "\<not> command_mode kbd \<and> unat keycode < KEY_MAX K
      \<and> process_key K kbd keycode pressed = (kbd', out)
      \<and> \<not> (ctrl_pressed kbd' \<and> space_pressed kbd' \<and> pressed)"
  then have f: "kbd' = fst (process_key K kbd keycode pressed)"
    and s: "out = snd (process_key K kbd keycode pressed)" by simp_all
  from h have r: "unat keycode < KEY_MAX K" and n: "\<not> command_mode kbd" by simp_all
  from h have c: "\<not> (ctrl_pressed (fst (process_key K kbd keycode pressed)) \<and>
      space_pressed (fst (process_key K kbd keycode pressed)) \<and> pressed)"
    unfolding f by blast
  show "out = [SendKey (unat keycode) pressed]"
    unfolding s by (rule normal_mode_forwards_eq(1) [OF r n c])
  show "\<not> command_mode kbd'"
    unfolding f by (rule normal_mode_forwards_eq(2) [OF r n c])
next
  assume h: "\<not> command_mode (urb_context s) \<and> unat a < KEY_MAX K
      \<and> 8 \<le> length d1 \<and> 8 \<le> length d2
      \<and> key_diff (old_keys s) (take 6 (drop 2 d1)) = [(a, True)]
      \<and> key_diff (take 6 (drop 2 d1)) (take 6 (drop 2 d2)) = [(a, False)]
      \<and> \<not> ((unat a = KEY_LEFTCTRL K \<or> unat a = KEY_RIGHTCTRL K \<or> ctrl_pressed (urb_context s))
            \<and> (unat a = KEY_SPACE K \<or> space_pressed (urb_context s)))"
  define kbd1 where "kbd1 = fst (process_key K (urb_context s) a True)"
  define kbd2 where "kbd2 = fst (process_key K kbd1 a False)"
  from h have range: "unat a < KEY_MAX K" and normal: "\<not> command_mode (urb_context s)"
    by simp_all
  from h have nochord: "\<not> (ctrl_pressed kbd1 \<and> space_pressed kbd1 \<and> True)"
    unfolding kbd1_def by (auto simp: process_key_ctrl process_key_space)
  have out1: "snd (process_key K (urb_context s) a True) = [SendKey (unat a) True]"
    and mode1: "\<not> command_mode kbd1"
    using normal_mode_forwards_eq [OF range normal, of True] nochord
    unfolding kbd1_def by simp_all
  have out2: "snd (process_key K kbd1 a False) = [SendKey (unat a) False]"
    and mode2: "\<not> command_mode kbd2"
    using normal_mode_forwards_eq [OF range mode1, of False]
    unfolding kbd2_def by simp_all
  have irq1: "usbkbd_cmd_irq K 0 d1 s =
      Inr (\<lparr>urb_context = kbd1, old_keys = take 6 (drop 2 d1)\<rparr>,
           [SendKey (unat a) True, SubmitUrb])"
    using h irq_single_transition [of d1 s a True K] out1 by (simp add: kbd1_def)
  have irq2: "usbkbd_cmd_irq K 0 d2 \<lparr>urb_context = kbd1, old_keys = take 6 (drop 2 d1)\<rparr> =
      Inr (\<lparr>urb_context = kbd2, old_keys = take 6 (drop 2 d2)\<rparr>,
           [SendKey (unat a) False, SubmitUrb])"
    using h irq_single_transition
      [of d2 "\<lparr>urb_context = kbd1, old_keys = take 6 (drop 2 d1)\<rparr>" a False K] out2
    by (simp add: kbd2_def)
  have run: "deliver_reports K s [d1, d2] =
      Inr (\<lparr>urb_context = kbd2, old_keys = take 6 (drop 2 d2)\<rparr>,
           [SendKey (unat a) True, SubmitUrb, SendKey (unat a) False, SubmitUrb])"
    by (simp add: irq1 irq2)
  show "sent_to_injector (deliver_reports K s [d1, d2]) = [(unat a, True), (unat a, False)]"
    unfolding run sent_to_injector_def by simp
  show "mode_after (deliver_reports K s [d1, d2]) = Some False"
    unfolding run mode_after_def using mode2 by simp
qed

theorem normal_mode_pass_through_witness:
  "\<not> command_mode kbd_init \<and> unat (30 :: u8) < KEY_MAX linux_codes
   \<and> snd (process_key linux_codes kbd_init 30 True) = [SendKey 30 True]
   \<and> \<not> command_mode (fst (process_key linux_codes kbd_init 30 True))
   \<and> key_diff (old_keys driver_init) (take 6 (drop 2 (report [30]))) = [(30, True)]
   \<and> key_diff (take 6 (drop 2 (report [30]))) (take 6 (drop 2 (report []))) = [(30, False)]
   \<and> sent_to_injector (deliver_reports linux_codes driver_init [report [30], report []])
       = [(30, True), (30, False)]
   \<and> mode_after (deliver_reports linux_codes driver_init [report [30], report []]) = Some False"
proof -
  have k: "key_diff (old_keys driver_init) (take 6 (drop 2 (report [30]))) = [(30, True)]"
    "key_diff (take 6 (drop 2 (report [30]))) (take 6 (drop 2 (report []))) = [(30, False)]"
    by code_simp+
  have l: "8 \<le> length (report [30])" "8 \<le> length (report [])"
    by (simp_all add: report_def)
  have i: "\<not> command_mode kbd_init" "\<not> ctrl_pressed kbd_init" "\<not> space_pressed kbd_init"
    "urb_context driver_init = kbd_init"
    by (simp_all add: kbd_init_def driver_init_def)
  have c: "unat (30 :: u8) < KEY_MAX linux_codes" "unat (30 :: u8) \<noteq> KEY_SPACE linux_codes"
    by (simp_all add: linux_codes_def)
  have p: "process_key linux_codes kbd_init 30 True =
      (fst (process_key linux_codes kbd_init 30 True),
       snd (process_key linux_codes kbd_init 30 True))"
    by simp
  have n: "\<not> (ctrl_pressed (fst (process_key linux_codes kbd_init 30 True))
       \<and> space_pressed (fst (process_key linux_codes kbd_init 30 True)) \<and> True)"
    by code_simp
  show ?thesis
    using normal_mode_pass_through [of kbd_init 30 linux_codes True
        "fst (process_key linux_codes kbd_init 30 True)"
        "snd (process_key linux_codes kbd_init 30 True)" driver_init 30
        "report [30]" "report []"] k l i c p n
    by simp
qed

subsection \<open>C8: other keys in command mode\<close>

text \<open>
  C8 says that in command mode a press of any key other than B and Q sends exactly the
  release of that key and leaves the mode unchanged.  Space is such a key: in command mode
  with Ctrl held (reached by Ctrl, Ctrl+Space, Ctrl), its press completes the chord, the
  mode goes back to normal, and only the log line is produced.
\<close>

theorem command_mode_space_press_toggles:
  "command_mode (urb_context (driver_after linux_codes [report [29], report [29, 57], report [29]]))
   \<and> unat (57 :: u8) \<noteq> KEY_B linux_codes \<and> unat (57 :: u8) \<noteq> KEY_Q linux_codes
   \<and> snd (process_key linux_codes
        (urb_context (driver_after linux_codes [report [29], report [29, 57], report [29]]))
        57 True) = [Printk (CommandMode False)]
   \<and> \<not> command_mode (fst (process_key linux_codes
        (urb_context (driver_after linux_codes [report [29], report [29, 57], report [29]]))
        57 True))"
  by code_simp

text \<open>
  C8 as amended: in command mode, a press of a key in the supported range other than B and
  Q that does not leave both Ctrl and Space held (after this transition's update of the
  latches) sends exactly the release of that key, and the mode stays command.
\<close>

theorem command_mode_other_key:
  assumes "unat keycode < KEY_MAX K" "command_mode kbd"
      and "unat keycode \<noteq> KEY_B K" "unat keycode \<noteq> KEY_Q K"
      and "process_key K kbd keycode True = (kbd', out)"
      and "\<not> (ctrl_pressed kbd' \<and> space_pressed kbd')"
  shows "out = [SendKey (unat keycode) False] \<and> command_mode kbd'"
proof -
  have f: "kbd' = fst (process_key K kbd keycode True)"
    and s: "out = snd (process_key K kbd keycode True)"
    using assms(5) by simp_all
  show ?thesis
    using assms(2,3,4,6) process_key_out [OF assms(1), of kbd True]
      process_key_mode [OF assms(1), of kbd True]
    unfolding f s by simp
qed

theorem command_mode_other_key_witness:
  "unat (30 :: u8) < KEY_MAX linux_codes \<and> command_mode (kbd_init\<lparr>command_mode := True\<rparr>)
   \<and> unat (30 :: u8) \<noteq> KEY_B linux_codes \<and> unat (30 :: u8) \<noteq> KEY_Q linux_codes
   \<and> \<not> (ctrl_pressed (fst (process_key linux_codes (kbd_init\<lparr>command_mode := True\<rparr>) 30 True))
        \<and> space_pressed (fst (process_key linux_codes (kbd_init\<lparr>command_mode := True\<rparr>) 30 True)))
   \<and> snd (process_key linux_codes (kbd_init\<lparr>command_mode := True\<rparr>) 30 True) = [SendKey 30 False]
   \<and> command_mode (fst (process_key linux_codes (kbd_init\<lparr>command_mode := True\<rparr>) 30 True))"
proof -
  have c: "unat (30 :: u8) < KEY_MAX linux_codes" "unat (30 :: u8) \<noteq> KEY_B linux_codes"
    "unat (30 :: u8) \<noteq> KEY_Q linux_codes"
    by (simp_all add: linux_codes_def)
  have n: "\<not> (ctrl_pressed (fst (process_key linux_codes (kbd_init\<lparr>command_mode := True\<rparr>) 30 True))
        \<and> space_pressed (fst (process_key linux_codes (kbd_init\<lparr>command_mode := True\<rparr>) 30 True)))"
    by code_simp
  show ?thesis
    using command_mode_other_key [OF c(1) _ c(2) c(3) prod.collapse [symmetric] n] c n
    by simp
qed

subsection \<open>C9: keycodes out of range\<close>



subsection \<open>C10: the open-terminal sequence leaves the state alone\<close>

text \<open>
  C10: whenever \<^verbatim>\<open>process_key\<close> sends the open-terminal sequence (the six events of
  \<^verbatim>\<open>send_ctrl_alt_t\<close> and the release of B), it is handling a press of B in command mode,
  and afterwards the mode, the Ctrl latch, the Space latch and every entry of the key
  table other than the one of B are what they were before: the events of the sequence go
  to the input device only.  The key codes of B, Ctrl and Space are taken to be different,
  as they are in the kernel's header.
\<close>

theorem macro_leaves_state:
  assumes "KEY_B K \<noteq> KEY_LEFTCTRL K" "KEY_B K \<noteq> KEY_RIGHTCTRL K" "KEY_B K \<noteq> KEY_SPACE K"
      and "process_key K kbd keycode pressed =
             (kbd', send_ctrl_alt_t K @ send_key (KEY_B K) False)"
  shows "command_mode kbd \<and> pressed \<and> unat keycode = KEY_B K
       \<and> command_mode kbd' = command_mode kbd
       \<and> ctrl_pressed kbd' = ctrl_pressed kbd
       \<and> space_pressed kbd' = space_pressed kbd
       \<and> (\<forall>i. i \<noteq> KEY_B K \<longrightarrow> key_state kbd' i = key_state kbd i)"
proof (cases "unat keycode < KEY_MAX K")
  case False
  then have "process_key K kbd keycode pressed = (kbd, [])"
    by (simp add: process_key_dropped)
  with assms(4) show ?thesis by (simp add: send_key_def)
next
  case True
  have f: "kbd' = fst (process_key K kbd keycode pressed)"
    using assms(4) by simp
  have s: "snd (process_key K kbd keycode pressed) =
      [SendKey (KEY_LEFTCTRL K) True, SendKey (KEY_LEFTALT K) True, SendKey (KEY_T K) True,
       SendKey (KEY_T K) False, SendKey (KEY_LEFTALT K) False, SendKey (KEY_LEFTCTRL K) False,
       SendKey (KEY_B K) False]"
    using assms(4) by (simp add: send_ctrl_alt_t_def send_key_def)
  have branch: "\<not> (ctrl_pressed kbd' \<and> space_pressed kbd' \<and> pressed)
      \<and> command_mode kbd \<and> pressed \<and> unat keycode = KEY_B K"
    using s unfolding f process_key_out [OF True]
    by (simp split: if_splits)
  then have b: "unat keycode = KEY_B K" by simp
  have "command_mode kbd' = command_mode kbd"
    using branch unfolding f process_key_mode [OF True] by auto
  moreover have "ctrl_pressed kbd' = ctrl_pressed kbd"
    unfolding f process_key_ctrl [OF True] using b assms(1,2) by simp
  moreover have "space_pressed kbd' = space_pressed kbd"
    unfolding f process_key_space [OF True] using b assms(3) by simp
  moreover have "\<forall>i. i \<noteq> KEY_B K \<longrightarrow> key_state kbd' i = key_state kbd i"
    unfolding f process_key_key_state [OF True] using b by simp
  ultimately show ?thesis using branch by simp
qed

theorem macro_leaves_state_witness:
  "KEY_B linux_codes \<noteq> KEY_LEFTCTRL linux_codes \<and> KEY_B linux_codes \<noteq> KEY_RIGHTCTRL linux_codes
   \<and> KEY_B linux_codes \<noteq> KEY_SPACE linux_codes
   \<and> snd (process_key linux_codes (kbd_init\<lparr>command_mode := True\<rparr>) 48 True)
       = send_ctrl_alt_t linux_codes @ send_key (KEY_B linux_codes) False
   \<and> command_mode (fst (process_key linux_codes (kbd_init\<lparr>command_mode := True\<rparr>) 48 True))
   \<and> \<not> ctrl_pressed (fst (process_key linux_codes (kbd_init\<lparr>command_mode := True\<rparr>) 48 True))
   \<and> \<not> space_pressed (fst (process_key linux_codes (kbd_init\<lparr>command_mode := True\<rparr>) 48 True))
   \<and> \<not> key_state (fst (process_key linux_codes (kbd_init\<lparr>command_mode := True\<rparr>) 48 True)) 29"
proof -
  have c: "KEY_B linux_codes \<noteq> KEY_LEFTCTRL linux_codes"
    "KEY_B linux_codes \<noteq> KEY_RIGHTCTRL linux_codes"
    "KEY_B linux_codes \<noteq> KEY_SPACE linux_codes" "29 \<noteq> KEY_B linux_codes"
    by (simp_all add: linux_codes_def)
  have o: "snd (process_key linux_codes (kbd_init\<lparr>command_mode := True\<rparr>) 48 True)
       = send_ctrl_alt_t linux_codes @ send_key (KEY_B linux_codes) False"
    by code_simp
  have p: "process_key linux_codes (kbd_init\<lparr>command_mode := True\<rparr>) 48 True =
     (fst (process_key linux_codes (kbd_init\<lparr>command_mode := True\<rparr>) 48 True),
      send_ctrl_alt_t linux_codes @ send_key (KEY_B linux_codes) False)"
    using o by (metis prod.collapse)
  show ?thesis
    using macro_leaves_state [OF c(1) c(2) c(3) p] c o
    by (simp add: kbd_init_def)
qed

end
